theory Spec2Isabelle
  imports Complex_Main "HOL-Library.Word" "HOL-Library.Multiset"
begin

section \<open>The library the extractor is written against\<close>

text \<open>
  \<open>ImagesExtractor\<close> works on PyMuPDF objects: rectangles, colour spaces, pixel maps,
  documents and pages. This section fixes what the extractor reads and writes of them;
  decoding, colour conversion and rendering are parameters of the model.
\<close>

type_synonym byte = "8 word"

datatype error = ValueError | AttributeError | RuntimeError

subsection \<open>Rectangles\<close>

record Rect =
  x0 :: real
  y0 :: real
  x1 :: real
  y1 :: real

definition isEmpty :: "Rect \<Rightarrow> bool" where
  \<comment> \<open>a rectangle without area\<close>
  "isEmpty r = (x1 r \<le> x0 r \<or> y1 r \<le> y0 r)"

definition rect_and :: "Rect \<Rightarrow> Rect \<Rightarrow> Rect" where
  \<comment> \<open>\<open>a & b\<close>: the common rectangle\<close>
  "rect_and a b = \<lparr>x0 = max (x0 a) (x0 b), y0 = max (y0 a) (y0 b),
                   x1 = min (x1 a) (x1 b), y1 = min (y1 a) (y1 b)\<rparr>"

definition rect_or :: "Rect \<Rightarrow> Rect \<Rightarrow> Rect" where
  \<comment> \<open>\<open>a | b\<close>: the smallest rectangle holding both\<close>
  "rect_or a b = \<lparr>x0 = min (x0 a) (x0 b), y0 = min (y0 a) (y0 b),
                  x1 = max (x1 a) (x1 b), y1 = max (y1 a) (y1 b)\<rparr>"

definition intersects :: "Rect \<Rightarrow> Rect \<Rightarrow> bool" where
  \<comment> \<open>\<open>a.intersects(b)\<close>: both have area and so has what they share\<close>
  "intersects a b = (\<not> isEmpty a \<and> \<not> isEmpty b \<and> \<not> isEmpty (rect_and a b))"

subsection \<open>Colour spaces and pixel maps\<close>

datatype Colorspace = Colorspace (cs_n: nat) (cs_name: string)

definition csGRAY :: Colorspace where "csGRAY = Colorspace 1 ''DeviceGray''"
definition csRGB :: Colorspace where "csRGB = Colorspace 3 ''DeviceRGB''"
definition csCMYK :: Colorspace where "csCMYK = Colorspace 4 ''DeviceCMYK''"

text \<open>
  A pixel map keeps its colour samples and its alpha samples in two planes here;
  \<open>alpha = None\<close> is a pixel map without alpha channel, \<open>colorspace = None\<close> one
  that holds alpha values only. \<open>samples\<close> gives the bytes in the order the library
  presents them, pixel by pixel with the alpha byte last.
\<close>

record Pixmap =
  width :: nat
  height :: nat
  colorspace :: "Colorspace option"
  colour :: "byte list"
  alpha :: "byte list option"

definition colorants :: "Pixmap \<Rightarrow> nat" where
  "colorants pix = (case colorspace pix of None \<Rightarrow> 0 | Some cs \<Rightarrow> cs_n cs)"

fun interleave :: "nat \<Rightarrow> byte list \<Rightarrow> byte list \<Rightarrow> byte list" where
  "interleave k cs [] = []"
| "interleave k cs (a # as) = take k cs @ a # interleave k (drop k cs) as"

definition samples :: "Pixmap \<Rightarrow> byte list" where
  "samples pix =
     (case alpha pix of None \<Rightarrow> colour pix
      | Some as \<Rightarrow> interleave (colorants pix) (colour pix) as)"

record document =
  image_objects :: "nat \<Rightarrow> error + Pixmap"
  streams :: "nat \<rightharpoonup> string"

text \<open>The two capabilities of the library that stay abstract.\<close>

record 'page fitz =
  convert :: "Colorspace \<Rightarrow> Colorspace \<Rightarrow> byte list \<Rightarrow> byte list"
  getPixmap :: "'page \<Rightarrow> Rect \<Rightarrow> real \<times> real \<Rightarrow> Pixmap"

definition Pixmap_doc :: "document \<Rightarrow> nat \<Rightarrow> error + Pixmap" where
  \<comment> \<open>\<open>fitz.Pixmap(doc, xref)\<close>: decode an image object, or fail\<close>
  "Pixmap_doc doc xr = image_objects doc xr"

definition Pixmap_alpha :: "Pixmap \<Rightarrow> Pixmap" where
  \<comment> \<open>\<open>fitz.Pixmap(pix, 1)\<close>: a copy with an opaque alpha channel added, if it has none\<close>
  "Pixmap_alpha pix =
     (case alpha pix of
        None \<Rightarrow> pix\<lparr>alpha := Some (replicate (width pix * height pix) 255)\<rparr>
      | Some as \<Rightarrow> pix)"

definition setAlpha :: "Pixmap \<Rightarrow> byte list \<Rightarrow> error + Pixmap" where
  \<comment> \<open>\<open>pix.setAlpha(ba)\<close>: one value per pixel; no values means opaque\<close>
  "setAlpha pix ba =
     (case alpha pix of
        None \<Rightarrow> Inl RuntimeError
      | Some as \<Rightarrow>
          if ba \<noteq> [] \<and> length ba < width pix * height pix then Inl RuntimeError
          else Inr (pix\<lparr>alpha := Some (if ba = [] then replicate (width pix * height pix) 255
                                         else take (width pix * height pix) ba)\<rparr>))"

definition Pixmap_cs :: "('page, 'z) fitz_scheme \<Rightarrow> Colorspace \<Rightarrow> Pixmap \<Rightarrow> error + Pixmap" where
  \<comment> \<open>\<open>fitz.Pixmap(cs, pix)\<close>: a copy converted to colour space \<open>cs\<close>, alpha kept\<close>
  "Pixmap_cs fz cs pix =
     (case colorspace pix of
        None \<Rightarrow> Inl ValueError
      | Some src \<Rightarrow> Inr (pix\<lparr>colorspace := Some cs, colour := convert fz src cs (colour pix)\<rparr>))"

section \<open>Recovering the pixel map of an image\<close>

text \<open>An entry of \<open>page.getImageList(full=True)\<close>.\<close>

record image_item =
  item_xref :: nat
  item_smask :: nat
  item_width :: nat
  item_height :: nat
  item_bpc :: nat
  item_colorspace :: string
  alt_colorspace :: string
  item_name :: string
  item_filter :: string
  referencer :: nat

definition binarize :: "byte list \<Rightarrow> byte list" where
  \<comment> \<open>\<open>for i in range(len(ba)): if ba[i] > 0: ba[i] = 255\<close>\<close>
  "binarize ba = map (\<lambda>b. if b > 0 then 255 else b) ba"

definition recover_pixmap ::
  "('page, 'z) fitz_scheme \<Rightarrow> document \<Rightarrow> image_item \<Rightarrow> error + Pixmap" where
  "recover_pixmap fz doc item =
     (let x = item_xref item; s = item_smask item in
      case Pixmap_doc doc x of
        Inl e \<Rightarrow> Inl e
      | Inr pix \<Rightarrow>
          (case (if s > 0 then
                   (let pix = Pixmap_alpha pix in
                    case Pixmap_doc doc s of
                      Inl e \<Rightarrow> Inl e
                    | Inr m \<Rightarrow> setAlpha pix (binarize (samples m)))
                 else Inr pix) of
             Inl e \<Rightarrow> Inl e
           | Inr pix \<Rightarrow>
               (case colorspace pix of
                  Some cs \<Rightarrow>
                    if cs_name cs \<notin> {cs_name csGRAY, cs_name csRGB} then Pixmap_cs fz csRGB pix
                    else Inr pix
                | None \<Rightarrow> Inr pix)))"

section \<open>Pages and the text-hiding rewrite\<close>

record page =
  parent :: document
  rect :: Rect
  get_contents :: "nat list"
  getImageList :: "image_item list"
  getImageBbox :: "image_item \<Rightarrow> Rect option"

text \<open>
  \<open>getImageBbox\<close> gives \<open>None\<close> where the library raises \<open>ValueError\<close>, the failure
  the extractor catches. \<open>bytes.replace(old, new)\<close> scans from the left and replaces
  the occurrences of \<open>old\<close> that do not overlap; the counter is the number of bytes of
  a replaced occurrence still to pass over.
\<close>

fun replace_from :: "string \<Rightarrow> string \<Rightarrow> nat \<Rightarrow> string \<Rightarrow> string" where
  "replace_from old new k [] = []"
| "replace_from old new (Suc k) (c # cs) = replace_from old new k cs"
| "replace_from old new 0 (c # cs) =
     (if take (length old) (c # cs) = old then new @ replace_from old new (length old - 1) cs
      else c # replace_from old new 0 cs)"

definition replace :: "string \<Rightarrow> string \<Rightarrow> string \<Rightarrow> string" where
  "replace old new s =
     (if old = [] then new @ concat (map (\<lambda>c. c # new) s) else replace_from old new 0 s)"

definition xrefStream :: "document \<Rightarrow> nat \<Rightarrow> string option" where
  "xrefStream doc xref = streams doc xref"

definition updateStream :: "document \<Rightarrow> nat \<Rightarrow> string \<Rightarrow> document" where
  "updateStream doc xref stream = doc\<lparr>streams := (streams doc)(xref \<mapsto> stream)\<rparr>"

definition hide_text :: "string \<Rightarrow> string" where
  "hide_text stream =
     replace ''Td'' ''Td 3 Tr'' (replace ''Tm'' ''Tm 3 Tr'' (replace ''BT'' ''BT 3 Tr'' stream))"

text \<open>
  The loop of \<open>_hide_page_text\<close> over the content streams. A stream that cannot be read
  is \<open>None\<close>, on which \<open>.replace\<close> raises; the streams rewritten before stay rewritten.
\<close>

fun hide_streams :: "document \<Rightarrow> nat list \<Rightarrow> (error + unit) \<times> document" where
  "hide_streams doc [] = (Inr (), doc)"
| "hide_streams doc (xref # xrefs) =
     (case xrefStream doc xref of
        None \<Rightarrow> (Inl AttributeError, doc)
      | Some stream \<Rightarrow> hide_streams (updateStream doc xref (hide_text stream)) xrefs)"

definition hide_page_text :: "page \<Rightarrow> (error + unit) \<times> page" where
  "hide_page_text pg =
     (let doc = parent pg in
      case hide_streams doc (get_contents pg) of (r, doc') \<Rightarrow> (r, pg\<lparr>parent := doc'\<rparr>))"

definition Matrix :: "real \<Rightarrow> real \<Rightarrow> real \<times> real" where
  \<comment> \<open>\<open>fitz.Matrix(a, b)\<close>: the scaling by \<open>a\<close> and \<open>b\<close>\<close>
  "Matrix a b = (a, b)"

definition clip_page ::
  "(page, 'z) fitz_scheme \<Rightarrow> page \<Rightarrow> Rect option \<Rightarrow> real \<Rightarrow> (error + Pixmap) \<times> page" where
  "clip_page fz pg bbox zoom =
     (case hide_page_text pg of
        (Inl e, pg') \<Rightarrow> (Inl e, pg')
      | (Inr u, pg') \<Rightarrow>
          (let bbox = (case bbox of None \<Rightarrow> rect pg' | Some b \<Rightarrow> rect_and b (rect pg'))
           in (Inr (getPixmap fz pg' bbox (Matrix zoom zoom)), pg')))"

section \<open>Image records\<close>

text \<open>
  Modelled from the spec: \<open>BlockType\<close> of \<open>common.share\<close>, of which the extractor uses
  the member \<open>IMAGE\<close> (an image record is tagged \<open>type = IMAGE\<close>).
\<close>

datatype BlockType = IMAGE

text \<open>The PNG encoding of a pixel map is kept as the pixel map it encodes.\<close>

datatype png = PNGData Pixmap

definition getPNGData :: "Pixmap \<Rightarrow> png" where
  "getPNGData pix = PNGData pix"

record raw_dict =
  rd_type :: BlockType
  rd_bbox :: "real \<times> real \<times> real \<times> real"
  rd_ext :: string
  rd_width :: nat
  rd_height :: nat
  rd_image :: png

definition tuple :: "Rect \<Rightarrow> real \<times> real \<times> real \<times> real" where
  "tuple r = (x0 r, y0 r, x1 r, y1 r)"

definition to_raw_dict :: "Pixmap \<Rightarrow> Rect \<Rightarrow> raw_dict" where
  "to_raw_dict img bbox =
     \<lparr>rd_type = IMAGE, rd_bbox = tuple bbox, rd_ext = ''png'',
      rd_width = width img, rd_height = height img, rd_image = getPNGData img\<rparr>"

text \<open>What the spec asks of the box and of the dimensions of a record.\<close>

definition non_degenerate :: "real \<times> real \<times> real \<times> real \<Rightarrow> bool" where
  "non_degenerate b = (case b of (a0, b0, a1, b1) \<Rightarrow> a0 < a1 \<and> b0 < b1)"

definition png_width :: "png \<Rightarrow> nat" where
  "png_width p = (case p of PNGData pix \<Rightarrow> width pix)"

definition png_height :: "png \<Rightarrow> nat" where
  "png_height p = (case p of PNGData pix \<Rightarrow> height pix)"

definition record_ok :: "raw_dict \<Rightarrow> bool" where
  "record_ok r = (non_degenerate (rd_bbox r) \<and> rd_width r = png_width (rd_image r)
                  \<and> rd_height r = png_height (rd_image r))"

section \<open>Raster images\<close>

text \<open>
  One pass of the loop of \<open>extract_images\<close>: \<open>None\<close> is a \<open>continue\<close>, \<open>Some\<close> the
  record appended to \<open>images\<close>. A failure after the \<open>try\<close> block leaves the call.
\<close>

definition extract_item ::
  "(page, 'z) fitz_scheme \<Rightarrow> real \<Rightarrow> page \<Rightarrow> image_item \<Rightarrow> (error + raw_dict option) \<times> page" where
  "extract_item fz clip_image_res_ratio pg item =
     (let doc = parent pg;
          item = item\<lparr>referencer := 0\<rparr> in
      case getImageBbox pg item of
        None \<Rightarrow> (Inr None, pg)
      | Some bbox \<Rightarrow>
          if \<not> intersects bbox (rect pg) then (Inr None, pg)
          else
            (case recover_pixmap fz doc item of
               Inl e \<Rightarrow> (Inl e, pg)
             | Inr pix \<Rightarrow>
                 (case (if colorspace pix = None
                        then clip_page fz pg (Some bbox) clip_image_res_ratio
                        else (Inr pix, pg)) of
                    (Inl e, pg') \<Rightarrow> (Inl e, pg')
                  | (Inr pix, pg') \<Rightarrow> (Inr (Some (to_raw_dict pix bbox)), pg'))))"

fun extract_images_loop ::
  "(page, 'z) fitz_scheme \<Rightarrow> real \<Rightarrow> image_item list \<Rightarrow> page \<Rightarrow> raw_dict list
     \<Rightarrow> (error + raw_dict list) \<times> page" where
  "extract_images_loop fz ratio [] pg images = (Inr images, pg)"
| "extract_images_loop fz ratio (item # items) pg images =
     (case extract_item fz ratio pg item of
        (Inl e, pg') \<Rightarrow> (Inl e, pg')
      | (Inr None, pg') \<Rightarrow> extract_images_loop fz ratio items pg' images
      | (Inr (Some raw_dict), pg') \<Rightarrow> extract_images_loop fz ratio items pg' (images @ [raw_dict]))"

definition extract_images ::
  "(page, 'z) fitz_scheme \<Rightarrow> page \<Rightarrow> real \<Rightarrow> (error + raw_dict list) \<times> page" where
  "extract_images fz pg clip_image_res_ratio =
     extract_images_loop fz clip_image_res_ratio (getImageList pg) pg []"

section \<open>Vector graphics\<close>

subsection \<open>Arrays and the image-processing library\<close>

text \<open>
  A two-dimensional \<open>numpy\<close> array: its shape and its entries by row and column.
  A slice bound is taken as Python takes it: a negative bound counts from the end,
  and every bound is clamped to the axis.
\<close>

record 'a ndarray =
  rows :: nat
  cols :: nat
  entry :: "nat \<Rightarrow> nat \<Rightarrow> 'a"

definition py_int :: "real \<Rightarrow> int" where
  \<comment> \<open>\<open>int(x)\<close> cuts the fraction off\<close>
  "py_int x = (if 0 \<le> x then \<lfloor>x\<rfloor> else \<lceil>x\<rceil>)"

definition slice_bound :: "int \<Rightarrow> nat \<Rightarrow> nat" where
  "slice_bound i len = (if i < 0 then nat (max 0 (i + int len)) else min (nat i) len)"

definition assign_slice ::
  "'a ndarray \<Rightarrow> int \<times> int \<Rightarrow> int \<times> int \<Rightarrow> 'a \<Rightarrow> 'a ndarray" where
  \<comment> \<open>\<open>a[r0:r1, c0:c1] = v\<close>\<close>
  "assign_slice a rs cs v =
     (case (rs, cs) of ((r0, r1), (c0, c1)) \<Rightarrow>
        a\<lparr>entry := \<lambda>r c.
              if slice_bound r0 (rows a) \<le> r \<and> r < slice_bound r1 (rows a) \<and>
                 slice_bound c0 (cols a) \<le> c \<and> c < slice_bound c1 (cols a)
              then v else entry a r c\<rparr>)"

text \<open>
  A contour that \<open>findContours\<close> returns is a sequence of at least one point.
  \<open>boundingRect\<close> is the upright rectangle of the pixels of the contour.
\<close>

type_synonym contour = "(int \<times> int) \<times> (int \<times> int) list"

definition boundingRect :: "contour \<Rightarrow> int \<times> int \<times> int \<times> int" where
  "boundingRect ct =
     (case ct of (p, ps) \<Rightarrow>
        (let xmin = fold min (map fst ps) (fst p); xmax = fold max (map fst ps) (fst p);
             ymin = fold min (map snd ps) (snd p); ymax = fold max (map snd ps) (snd p)
         in (xmin, ymin, xmax - xmin + 1, ymax - ymin + 1)))"

definition threshold_BINARY_INV :: "byte ndarray \<Rightarrow> byte \<Rightarrow> byte \<Rightarrow> byte ndarray" where
  \<comment> \<open>\<open>cv.threshold(src, thresh, maxval, cv.THRESH_BINARY_INV)\<close>\<close>
  "threshold_BINARY_INV src thresh maxval =
     src\<lparr>entry := \<lambda>r c. if entry src r c > thresh then 0 else maxval\<rparr>"

text \<open>The steps of the library that stay abstract.\<close>

record cv =
  imdecode :: "png \<Rightarrow> (byte \<times> byte \<times> byte) ndarray"
  cvtColor_BGR2GRAY :: "(byte \<times> byte \<times> byte) ndarray \<Rightarrow> byte ndarray"
  GaussianBlur :: "byte ndarray \<Rightarrow> nat \<times> nat \<Rightarrow> byte ndarray"
  morphologyEx_CLOSE :: "byte ndarray \<Rightarrow> nat \<times> nat \<Rightarrow> byte ndarray"
  findContours_EXTERNAL :: "byte ndarray \<Rightarrow> contour list"

subsection \<open>Elements and collections\<close>

text \<open>
  Modelled from the spec: \<open>Element\<close> of \<open>common.Element\<close>, which is absent. A contour
  region is a bounding box and nothing else; \<open>update_bbox\<close> stores the box given.
\<close>

datatype Element = Element (element_bbox: Rect)

definition update_bbox :: "real \<times> real \<times> real \<times> real \<Rightarrow> Element" where
  "update_bbox r = (case r of (a, b, c, d) \<Rightarrow> Element \<lparr>x0 = a, y0 = b, x1 = c, y1 = d\<rparr>)"

text \<open>
  Modelled from the spec: \<open>Collection.group\<close> and \<open>Collection.bbox\<close> of
  \<open>common.Collection\<close>, which is absent. Grouping partitions the regions into connected
  clusters: the criterion \<open>f\<close> gives the rectangle two regions share, two regions are
  adjacent when that rectangle is not empty, and two regions are in the same cluster when a
  chain of adjacent regions connects them. The box of a cluster is the union of the boxes of
  its members.
\<close>

definition adjacent :: "('a \<Rightarrow> 'a \<Rightarrow> Rect) \<Rightarrow> 'a \<Rightarrow> 'a \<Rightarrow> bool" where
  "adjacent f a b = (\<not> isEmpty (f a b))"

definition expand :: "('a \<Rightarrow> 'a \<Rightarrow> Rect) \<Rightarrow> 'a list \<Rightarrow> 'a set \<Rightarrow> 'a set" where
  \<comment> \<open>one more link of the chain\<close>
  "expand f xs S = S \<union> set (filter (\<lambda>y. \<exists>x\<in>S. adjacent f x y) xs)"

fun grow :: "('a \<Rightarrow> 'a \<Rightarrow> Rect) \<Rightarrow> 'a list \<Rightarrow> nat \<Rightarrow> 'a set \<Rightarrow> 'a set" where
  "grow f xs 0 S = S"
| "grow f xs (Suc k) S = grow f xs k (expand f xs S)"

definition connected_to :: "('a \<Rightarrow> 'a \<Rightarrow> Rect) \<Rightarrow> 'a list \<Rightarrow> 'a \<Rightarrow> 'a set" where
  \<comment> \<open>a chain without repetition has fewer links than there are regions\<close>
  "connected_to f xs x = grow f xs (length xs) {x}"

definition cluster :: "('a \<Rightarrow> 'a \<Rightarrow> Rect) \<Rightarrow> 'a list \<Rightarrow> 'a \<Rightarrow> 'a list" where
  "cluster f xs x = filter (\<lambda>y. y \<in> connected_to f xs x) xs"

definition Collection_group :: "('a \<Rightarrow> 'a \<Rightarrow> Rect) \<Rightarrow> 'a list \<Rightarrow> 'a list list" where
  "Collection_group f xs = remdups (map (cluster f xs) xs)"

text \<open>
  The links of such chains as a relation on the regions of \<open>xs\<close>: its reflexive
  transitive closure is what the clusters are compared with.
\<close>

definition links :: "('a \<Rightarrow> 'a \<Rightarrow> Rect) \<Rightarrow> 'a list \<Rightarrow> ('a \<times> 'a) set" where
  "links f xs = {(a, b). b \<in> set xs \<and> adjacent f a b}"

fun Collection_bbox :: "Element list \<Rightarrow> Rect" where
  "Collection_bbox [] = \<lparr>x0 = 0, y0 = 0, x1 = 0, y1 = 0\<rparr>"
| "Collection_bbox (e # es) = fold (\<lambda>e r. rect_or r (element_bbox e)) es (element_bbox e)"

subsection \<open>Detection and clipping\<close>

fun exclude_loop :: "byte ndarray \<Rightarrow> (real \<times> real \<times> real \<times> real) list \<Rightarrow> byte ndarray" where
  "exclude_loop gray [] = gray"
| "exclude_loop gray ((a, b, c, d) # exclude_areas) =
     (let ix0 = py_int a; iy0 = py_int b; ix1 = py_int c; iy1 = py_int d
      in exclude_loop (assign_slice gray (iy0 - 2, iy1 + 2) (ix0 - 2, ix1 + 2) 255) exclude_areas)"

text \<open>
  The rectangles drawn on \<open>src\<close> and the window shown are for the eye only; they do not
  reach the collection returned and are left out.
\<close>

definition detect_svg_contours ::
  "cv \<Rightarrow> (page, 'z) fitz_scheme \<Rightarrow> page \<Rightarrow> (real \<times> real \<times> real \<times> real) list
     \<Rightarrow> (error + Element list) \<times> page" where
  "detect_svg_contours cvl fz pg exclude_areas =
     (case clip_page fz pg None 1.0 of
        (Inl e, pg') \<Rightarrow> (Inl e, pg')
      | (Inr pix, pg') \<Rightarrow>
          (let img_byte = getPNGData pix;
               src = imdecode cvl img_byte;
               gray = cvtColor_BGR2GRAY cvl src;
               gray = exclude_loop gray exclude_areas;
               gauss = GaussianBlur cvl gray (9, 9);
               binary = threshold_BINARY_INV gauss 250 255;
               kernel = (cols binary div 50, rows binary div 50);
               dst = morphologyEx_CLOSE cvl binary kernel;
               contours = findContours_EXTERNAL cvl dst;
               collection = map (\<lambda>ct. case boundingRect ct of (x, y, w, h) \<Rightarrow>
                                  update_bbox (real_of_int x, real_of_int y,
                                               real_of_int (x + w), real_of_int (y + h)))
                                contours
           in (Inr collection, pg')))"

definition bbox_and :: "Element \<Rightarrow> Element \<Rightarrow> Rect" where
  \<comment> \<open>\<open>lambda a,b: a.bbox & b.bbox\<close>\<close>
  "bbox_and a b = rect_and (element_bbox a) (element_bbox b)"

definition extract_vector_graphics ::
  "cv \<Rightarrow> (page, 'z) fitz_scheme \<Rightarrow> page \<Rightarrow> (real \<times> real \<times> real \<times> real) list \<Rightarrow> real
     \<Rightarrow> (error + raw_dict list) \<times> page" where
  "extract_vector_graphics cvl fz pg exclude_areas clip_image_res_ratio =
     (case detect_svg_contours cvl fz pg exclude_areas of
        (Inl e, pg') \<Rightarrow> (Inl e, pg')
      | (Inr contours, pg') \<Rightarrow>
          (let groups = Collection_group bbox_and contours;
               images = map (\<lambda>g. let bbox = Collection_bbox g;
                                      pix = getPixmap fz pg' bbox
                                              (Matrix clip_image_res_ratio clip_image_res_ratio)
                                  in to_raw_dict pix bbox) groups
           in (Inr images, pg')))"

section \<open>Sample inputs\<close>

text \<open>
  A document and a page on which the functions above are run in what follows: image 7 is a
  CMYK image of one pixel, image 9 holds alpha values only. The page shows \<open>Im0\<close> and \<open>Im1\<close>
  inside its rectangle and \<open>Im2\<close> outside of it; it has no placement for any other name.
\<close>

definition sample_fitz :: "page fitz" where
  "sample_fitz =
     \<lparr>convert = (\<lambda>src dst bs. take 3 bs),
      getPixmap = (\<lambda>pg clip m. \<lparr>width = 3, height = 3, colorspace = Some csRGB,
                                  colour = replicate 27 255, alpha = None\<rparr>)\<rparr>"

definition sample_document :: document where
  "sample_document =
     \<lparr>image_objects =
        (\<lambda>k. if k = 7 then Inr \<lparr>width = 1, height = 1, colorspace = Some csCMYK,
                                 colour = [0, 255, 255, 0], alpha = None\<rparr>
              else if k = 9 then Inr \<lparr>width = 1, height = 1, colorspace = None,
                                      colour = [], alpha = Some [200]\<rparr>
              else Inl RuntimeError),
      streams = [5 \<mapsto> ''BT 72 720 Td (Hi) Tj ET'']\<rparr>"

definition sample_item :: "nat \<Rightarrow> string \<Rightarrow> image_item" where
  "sample_item k nm =
     \<lparr>item_xref = k, item_smask = 0, item_width = 1, item_height = 1, item_bpc = 8,
      item_colorspace = [], alt_colorspace = [], item_name = nm, item_filter = [],
      referencer = 4\<rparr>"

definition sample_page :: page where
  "sample_page =
     \<lparr>parent = sample_document,
      rect = \<lparr>x0 = 0, y0 = 0, x1 = 612, y1 = 792\<rparr>,
      get_contents = [5],
      getImageList = [sample_item 9 ''Im1'', sample_item 7 ''Im2'', sample_item 7 ''Im3''],
      getImageBbox =
        (\<lambda>item. if item_name item = ''Im0'' \<or> item_name item = ''Im1''
                 then Some \<lparr>x0 = 100, y0 = 100, x1 = 200, y1 = 200\<rparr>
                 else if item_name item = ''Im2''
                 then Some \<lparr>x0 = 700, y0 = 100, x1 = 800, y1 = 200\<rparr>
                 else None)\<rparr>"

text \<open>
  Contour regions: \<open>A\<close> meets \<open>B\<close>, \<open>B\<close> meets \<open>C\<close>, \<open>A\<close> does not meet \<open>C\<close>, and
  \<open>D\<close> meets \<open>A\<close> only. The sample image-processing library finds the two contours
  whose pixels span the boxes of \<open>A\<close> and \<open>B\<close>.
\<close>

definition region_A :: Element where
  "region_A = Element \<lparr>x0 = 0, y0 = 0, x1 = 10, y1 = 10\<rparr>"

definition region_B :: Element where
  "region_B = Element \<lparr>x0 = 5, y0 = 5, x1 = 15, y1 = 15\<rparr>"

definition region_C :: Element where
  "region_C = Element \<lparr>x0 = 12, y0 = 12, x1 = 20, y1 = 20\<rparr>"

definition region_D :: Element where
  "region_D = Element \<lparr>x0 = - 5, y0 = - 5, x1 = 2, y1 = 2\<rparr>"

definition sample_cv :: cv where
  "sample_cv =
     \<lparr>imdecode = (\<lambda>p. \<lparr>rows = png_height p, cols = png_width p, entry = (\<lambda>r c. (255, 255, 255))\<rparr>),
      cvtColor_BGR2GRAY = (\<lambda>src. \<lparr>rows = rows src, cols = cols src,
                                      entry = (\<lambda>r c. fst (entry src r c))\<rparr>),
      GaussianBlur = (\<lambda>gray ksize. gray),
      morphologyEx_CLOSE = (\<lambda>binary kernel. binary),
      findContours_EXTERNAL = (\<lambda>dst. [((0, 0), [(9, 0), (9, 9), (0, 9)]),
                                        ((5, 5), [(14, 5), (14, 14), (5, 14)])])\<rparr>"


section \<open>Properties of pixel-map recovery\<close>


lemma Pixmap_cs_alpha:
  "Pixmap_cs fz cs pix = Inr pix' \<Longrightarrow> alpha pix' = alpha pix"
  by (auto simp: Pixmap_cs_def split: option.splits)



lemma setAlpha_alpha:
  "setAlpha pix ba = Inr pix' \<Longrightarrow>
     alpha pix' = Some (if ba = [] then replicate (width pix * height pix) 255
                        else take (width pix * height pix) ba)"
  by (auto simp: setAlpha_def split: option.splits if_splits)

lemma binarize_set: "b \<in> set (binarize ba) \<Longrightarrow> b = 0 \<or> b = 255"
  by (auto simp: binarize_def word_greater_zero_iff)

lemma binarize_nth:
  "i < length ba \<Longrightarrow> binarize ba ! i = (if ba ! i > 0 then 255 else 0)"
  by (auto simp: binarize_def word_greater_zero_iff)

lemma binarize_Nil: "binarize ba = [] \<longleftrightarrow> ba = []" by (simp add: binarize_def)

text \<open>
  Claim C2. For an item with a soft mask (\<open>smask > 0\<close>) the pixel map returned has an alpha
  channel, which holds one value for each pixel, taken from the soft mask's samples in their
  order: 255 where the sample is greater than 0 and 0 where it is 0. So every alpha value is
  0 or 255, and a mask of samples 128 gives an alpha channel of 255 throughout.
\<close>

theorem recover_pixmap_alpha:
  assumes "recover_pixmap fz doc item = Inr pix" and "item_smask item > 0"
  shows "\<exists>base m as. Pixmap_doc doc (item_xref item) = Inr base
           \<and> Pixmap_doc doc (item_smask item) = Inr m
           \<and> alpha pix = Some as
           \<and> as = (if samples m = [] then replicate (width base * height base) 255
                   else take (width base * height base) (binarize (samples m)))
           \<and> (\<forall>i < length as. i < length (samples m) \<longrightarrow>
                  as ! i = (if samples m ! i > 0 then 255 else 0))
           \<and> (\<forall>a \<in> set as. a = 0 \<or> a = 255)"
proof -
  from assms obtain base m p1 where
    b: "Pixmap_doc doc (item_xref item) = Inr base" and
    m: "Pixmap_doc doc (item_smask item) = Inr m" and
    s: "setAlpha (Pixmap_alpha base) (binarize (samples m)) = Inr p1" and
    a: "alpha pix = alpha p1"
    by (auto simp: recover_pixmap_def Let_def dest!: Pixmap_cs_alpha
           split: sum.splits option.splits if_splits)
  have wh: "width (Pixmap_alpha base) = width base" "height (Pixmap_alpha base) = height base"
    by (auto simp: Pixmap_alpha_def split: option.splits)
  let ?as = "if samples m = [] then replicate (width base * height base) 255
                   else take (width base * height base) (binarize (samples m))"
  have 1: "alpha pix = Some ?as"
    using setAlpha_alpha[OF s] a wh by (simp add: binarize_Nil)
  have 2: "\<forall>a \<in> set ?as. a = 0 \<or> a = 255"
    by (auto dest!: in_set_takeD binarize_set)
  have 3: "\<forall>i < length ?as. i < length (samples m) \<longrightarrow>
                  ?as ! i = (if samples m ! i > 0 then 255 else 0)"
    by (auto simp: binarize_nth)
  show ?thesis using b m 1 2 3 by blast
qed

theorem recover_pixmap_alpha_witness:
  "alpha (projr (recover_pixmap
     \<lparr>convert = (\<lambda>src dst bs. take 3 bs),
      getPixmap = (\<lambda>(pg::page) clip m. \<lparr>width = 0, height = 0, colorspace = None, colour = [], alpha = None\<rparr>)\<rparr>
     \<lparr>image_objects = (\<lambda>k. if k = 7 then Inr \<lparr>width = 2, height = 2, colorspace = Some csGRAY,
                                               colour = [10, 20, 30, 40], alpha = None\<rparr>
                             else if k = 8 then Inr \<lparr>width = 2, height = 2, colorspace = Some csGRAY,
                                               colour = [128, 128, 128, 128], alpha = None\<rparr>
                             else Inl RuntimeError),
      streams = Map.empty\<rparr>
     \<lparr>item_xref = 7, item_smask = 8, item_width = 2, item_height = 2, item_bpc = 8,
      item_colorspace = ''DeviceGray'', alt_colorspace = [], item_name = ''Im0'',
      item_filter = ''FlateDecode'', referencer = 0\<rparr>))
   = Some [255, 255, 255, 255]"
proof -
  let ?fz = "\<lparr>convert = (\<lambda>src dst bs. take 3 bs),
      getPixmap = (\<lambda>(pg::page) clip m. \<lparr>width = 0, height = 0, colorspace = None, colour = [], alpha = None\<rparr>)\<rparr>"
  let ?doc = "\<lparr>image_objects = (\<lambda>k. if k = 7 then Inr \<lparr>width = 2, height = 2, colorspace = Some csGRAY,
                                               colour = [10, 20, 30, 40], alpha = None\<rparr>
                             else if k = 8 then Inr \<lparr>width = 2, height = 2, colorspace = Some csGRAY,
                                               colour = [128, 128, 128, 128], alpha = None\<rparr>
                             else Inl RuntimeError),
      streams = Map.empty\<rparr>"
  let ?item = "\<lparr>item_xref = 7, item_smask = 8, item_width = 2, item_height = 2, item_bpc = 8,
      item_colorspace = ''DeviceGray'', alt_colorspace = [], item_name = ''Im0'',
      item_filter = ''FlateDecode'', referencer = 0\<rparr>"
  have h: "recover_pixmap ?fz ?doc ?item = Inr (projr (recover_pixmap ?fz ?doc ?item))"
    by (simp add: recover_pixmap_def Pixmap_doc_def Pixmap_alpha_def setAlpha_def binarize_def
                  samples_def csGRAY_def csRGB_def)
  have s: "item_smask ?item > 0" by simp
  show ?thesis
    using recover_pixmap_alpha [OF h s]
    by (simp add: Pixmap_doc_def samples_def binarize_def)
qed

section \<open>Properties of raster extraction\<close>

lemma hide_page_text_frame:
  "hide_page_text pg = (r, pg') \<Longrightarrow> \<exists>d. pg' = pg\<lparr>parent := d\<rparr>"
  by (auto simp: hide_page_text_def Let_def split: prod.splits)

lemma clip_page_frame:
  "clip_page fz pg b z = (r, pg') \<Longrightarrow> \<exists>d. pg' = pg\<lparr>parent := d\<rparr>"
  by (auto simp: clip_page_def split: prod.splits sum.splits dest!: hide_page_text_frame)

lemma extract_item_frame:
  "extract_item fz ratio pg item = (r, pg') \<Longrightarrow> \<exists>d. pg' = pg\<lparr>parent := d\<rparr>"
  apply (auto simp: extract_item_def Let_def split: option.splits if_splits sum.splits prod.splits dest!: clip_page_frame)
  apply (rule exI[of _ "parent pg"], simp)+
  done

lemma extract_item_outside:
  "getImageBbox pg (item\<lparr>referencer := 0\<rparr>) = Some bbox \<Longrightarrow> \<not> intersects bbox (rect pg) \<Longrightarrow>
   extract_item fz ratio pg item = (Inr None, pg)"
  by (simp add: extract_item_def)


lemma extract_images_loop_skip:
  assumes "\<And>d. extract_item fz ratio (pg\<lparr>parent := d\<rparr>) item = (Inr None, pg\<lparr>parent := d\<rparr>)"
  shows "extract_images_loop fz ratio (xs @ item # ys) pg acc
           = extract_images_loop fz ratio (xs @ ys) pg acc"
  using assms
proof (induction xs arbitrary: pg acc)
  case Nil
  have "extract_item fz ratio pg item = (Inr None, pg)" using Nil[of "parent pg"] by simp
  then show ?case by simp
next
  case (Cons x xs)
  show ?case
  proof (cases "extract_item fz ratio pg x")
    case (Pair r pg')
    then obtain d where d: "pg' = pg\<lparr>parent := d\<rparr>" using extract_item_frame by blast
    have st: "\<And>d'. extract_item fz ratio (pg'\<lparr>parent := d'\<rparr>) item = (Inr None, pg'\<lparr>parent := d'\<rparr>)"
      using Cons.prems d by simp
    show ?thesis using Pair Cons.IH[OF st]
      by (auto split: sum.splits option.splits)
  qed
qed

text \<open>
  Claim C5. A raw image reference whose placement box does not intersect the rectangle of
  the page yields no record: its pass of the loop appends nothing and changes nothing, so
  \<open>extract_images\<close> returns what it returns on the other references alone.
\<close>

theorem extract_images_outside_page:
  assumes "getImageBbox pg (item\<lparr>referencer := 0\<rparr>) = Some bbox"
      and "\<not> intersects bbox (rect pg)"
  shows "extract_item fz ratio pg item = (Inr None, pg) \<and>
         (\<forall>xs ys. getImageList pg = xs @ item # ys \<longrightarrow>
            extract_images fz pg ratio = extract_images_loop fz ratio (xs @ ys) pg [])"
proof -
  have "\<And>d. extract_item fz ratio (pg\<lparr>parent := d\<rparr>) item = (Inr None, pg\<lparr>parent := d\<rparr>)"
    using assms by (intro extract_item_outside[of _ _ bbox]) auto
  from extract_images_loop_skip[OF this] show ?thesis
    using assms by (simp add: extract_images_def extract_item_outside)
qed


text \<open>
  Claim C6. For a reference whose recovered pixel map has no colour space, the record comes
  from the page itself: the text of the page is hidden, the page is rendered clipped to the
  box of the reference (within the page) at the given resolution ratio, and the record is
  made of that rendering; the recovered pixel map occurs nowhere in it.
\<close>

theorem extract_images_alpha_only:
  assumes "getImageBbox pg (item\<lparr>referencer := 0\<rparr>) = Some bbox"
      and "intersects bbox (rect pg)"
      and "recover_pixmap fz (parent pg) (item\<lparr>referencer := 0\<rparr>) = Inr pix"
      and "colorspace pix = None"
      and "hide_page_text pg = (Inr (), pg')"
  shows "extract_item fz ratio pg item =
           (Inr (Some (to_raw_dict (getPixmap fz pg' (rect_and bbox (rect pg)) (Matrix ratio ratio)) bbox)), pg')
         \<and> extract_images_loop fz ratio (item # items) pg images =
             extract_images_loop fz ratio items pg'
               (images @ [to_raw_dict (getPixmap fz pg' (rect_and bbox (rect pg)) (Matrix ratio ratio)) bbox])"
proof -
  obtain d where "pg' = pg\<lparr>parent := d\<rparr>" using hide_page_text_frame[OF assms(5)] by blast
  then have r: "rect pg' = rect pg" by simp
  have "extract_item fz ratio pg item =
           (Inr (Some (to_raw_dict (getPixmap fz pg' (rect_and bbox (rect pg)) (Matrix ratio ratio)) bbox)), pg')"
    using assms r by (simp add: extract_item_def clip_page_def)
  then show ?thesis by simp
qed

lemma extract_item_unchanged:
  assumes "\<forall>bbox pix. getImageBbox pg (item\<lparr>referencer := 0\<rparr>) = Some bbox \<longrightarrow> intersects bbox (rect pg) \<longrightarrow>
             recover_pixmap fz (parent pg) (item\<lparr>referencer := 0\<rparr>) = Inr pix \<longrightarrow> colorspace pix \<noteq> None"
  shows "snd (extract_item fz ratio pg item) = pg"
  using assms
  by (auto simp: extract_item_def Let_def split: option.splits sum.splits prod.splits)

lemma extract_images_loop_unchanged:
  assumes "\<forall>item \<in> set items. \<forall>bbox pix. getImageBbox pg (item\<lparr>referencer := 0\<rparr>) = Some bbox \<longrightarrow> intersects bbox (rect pg) \<longrightarrow>
             recover_pixmap fz (parent pg) (item\<lparr>referencer := 0\<rparr>) = Inr pix \<longrightarrow> colorspace pix \<noteq> None"
  shows "snd (extract_images_loop fz ratio items pg acc) = pg"
  using assms
proof (induction items arbitrary: acc)
  case Nil
  then show ?case by simp
next
  case (Cons x xs)
  have "snd (extract_item fz ratio pg x) = pg"
    using Cons.prems by (intro extract_item_unchanged) auto
  then obtain r where r: "extract_item fz ratio pg x = (r, pg)" by (cases "extract_item fz ratio pg x") auto
  have "\<And>acc. snd (extract_images_loop fz ratio xs pg acc) = pg"
    using Cons.IH Cons.prems by auto
  then show ?case using r by (auto split: sum.splits option.splits)
qed

lemma hide_text_sample:
  "hide_text ''BT 72 720 Td (Hi) Tj ET'' = ''BT 3 Tr 72 720 Td 3 Tr (Hi) Tj ET''"
  by (simp add: hide_text_def replace_def)

lemma hide_page_text_sample:
  "hide_page_text sample_page =
    (Inr (), sample_page\<lparr>parent := sample_document\<lparr>streams := [5 \<mapsto> ''BT 3 Tr 72 720 Td 3 Tr (Hi) Tj ET'']\<rparr>\<rparr>)"
  by (simp add: hide_page_text_def sample_page_def sample_document_def xrefStream_def
                updateStream_def hide_text_sample)

theorem extract_images_outside_page_witness:
  "getImageBbox sample_page ((sample_item 7 ''Im2'')\<lparr>referencer := 0\<rparr>)
      = Some \<lparr>x0 = 700, y0 = 100, x1 = 800, y1 = 200\<rparr>
   \<and> \<not> intersects \<lparr>x0 = 700, y0 = 100, x1 = 800, y1 = 200\<rparr> (rect sample_page)
   \<and> extract_item sample_fitz 3 sample_page (sample_item 7 ''Im2'') = (Inr None, sample_page)
   \<and> extract_images sample_fitz sample_page 3
        = extract_images_loop sample_fitz 3 [sample_item 9 ''Im1'', sample_item 7 ''Im3''] sample_page []"
proof -
  have b: "getImageBbox sample_page ((sample_item 7 ''Im2'')\<lparr>referencer := 0\<rparr>)
             = Some \<lparr>x0 = 700, y0 = 100, x1 = 800, y1 = 200\<rparr>"
    by (simp add: sample_page_def sample_item_def)
  have n: "\<not> intersects \<lparr>x0 = 700, y0 = 100, x1 = 800, y1 = 200\<rparr> (rect sample_page)"
    by (simp add: sample_page_def intersects_def isEmpty_def rect_and_def)
  have l: "getImageList sample_page = [sample_item 9 ''Im1''] @ sample_item 7 ''Im2'' # [sample_item 7 ''Im3'']"
    by (simp add: sample_page_def)
  note t = extract_images_outside_page [OF b n, of sample_fitz 3]
  from t have e: "extract_item sample_fitz 3 sample_page (sample_item 7 ''Im2'') = (Inr None, sample_page)"
    by (rule conjunct1)
  from t l have "extract_images sample_fitz sample_page 3
        = extract_images_loop sample_fitz 3 ([sample_item 9 ''Im1''] @ [sample_item 7 ''Im3'']) sample_page []"
    by blast
  then have r: "extract_images sample_fitz sample_page 3
        = extract_images_loop sample_fitz 3 [sample_item 9 ''Im1'', sample_item 7 ''Im3''] sample_page []"
    by (simp only: append.simps)
  show ?thesis by (intro conjI; fact)
qed


theorem extract_images_alpha_only_witness:
  "extract_item sample_fitz 3 sample_page (sample_item 9 ''Im1'') =
     (Inr (Some \<lparr>rd_type = IMAGE, rd_bbox = (100, 100, 200, 200), rd_ext = ''png'',
                 rd_width = 3, rd_height = 3,
                 rd_image = PNGData \<lparr>width = 3, height = 3, colorspace = Some csRGB,
                                      colour = replicate 27 255, alpha = None\<rparr>\<rparr>),
      sample_page\<lparr>parent := sample_document\<lparr>streams := [5 \<mapsto> ''BT 3 Tr 72 720 Td 3 Tr (Hi) Tj ET'']\<rparr>\<rparr>)"
proof -
  have b: "getImageBbox sample_page ((sample_item 9 ''Im1'')\<lparr>referencer := 0\<rparr>)
             = Some \<lparr>x0 = 100, y0 = 100, x1 = 200, y1 = 200\<rparr>"
    by (simp add: sample_page_def sample_item_def)
  have i: "intersects \<lparr>x0 = 100, y0 = 100, x1 = 200, y1 = 200\<rparr> (rect sample_page)"
    by (simp add: sample_page_def intersects_def isEmpty_def rect_and_def)
  have r: "recover_pixmap sample_fitz (parent sample_page) ((sample_item 9 ''Im1'')\<lparr>referencer := 0\<rparr>)
             = Inr \<lparr>width = 1, height = 1, colorspace = None, colour = [], alpha = Some [200]\<rparr>"
    by (simp add: recover_pixmap_def Pixmap_doc_def sample_page_def sample_document_def sample_item_def)
  have c: "colorspace \<lparr>width = 1, height = 1, colorspace = None, colour = [], alpha = Some [200]\<rparr> = None"
    by simp
  show ?thesis
    using extract_images_alpha_only [OF b i r c hide_page_text_sample, of 3]
    by (simp add: to_raw_dict_def tuple_def getPNGData_def sample_fitz_def)
qed

text \<open>
  Claim C3 says that \<open>extract_images\<close> leaves the page as it was. On the sample page it
  does not: the reference \<open>Im1\<close> has no colour space, so the page is clipped, and clipping
  hides the text by rewriting the content stream of the page.
\<close>

theorem extract_images_rewrites_streams:
  "xrefStream (parent sample_page) 5 = Some ''BT 72 720 Td (Hi) Tj ET''
   \<and> xrefStream (parent (snd (extract_images sample_fitz sample_page 3))) 5
       = Some ''BT 3 Tr 72 720 Td 3 Tr (Hi) Tj ET''"
  by (simp add: extract_images_def extract_item_def sample_page_def sample_item_def
        intersects_def isEmpty_def rect_and_def recover_pixmap_def Pixmap_doc_def
        sample_document_def clip_page_def hide_page_text_def xrefStream_def updateStream_def
        hide_text_sample)

text \<open>
  Claim C3, amended. \<open>extract_images\<close> returns the page as it was, content streams
  included, when no reference that is placed on the page and intersects its rectangle
  recovers to a pixel map without colour space.
\<close>

theorem extract_images_page_unchanged:
  assumes "\<forall>item \<in> set (getImageList pg). \<forall>bbox pix.
             getImageBbox pg (item\<lparr>referencer := 0\<rparr>) = Some bbox \<longrightarrow>
             intersects bbox (rect pg) \<longrightarrow>
             recover_pixmap fz (parent pg) (item\<lparr>referencer := 0\<rparr>) = Inr pix \<longrightarrow>
             colorspace pix \<noteq> None"
  shows "snd (extract_images fz pg ratio) = pg"
  using assms unfolding extract_images_def by (rule extract_images_loop_unchanged)

theorem extract_images_page_unchanged_witness:
  "snd (extract_images sample_fitz (sample_page\<lparr>getImageList := [sample_item 7 ''Im0'', sample_item 7 ''Im2'']\<rparr>) 3)
     = sample_page\<lparr>getImageList := [sample_item 7 ''Im0'', sample_item 7 ''Im2'']\<rparr>"
proof -
  let ?pg = "sample_page\<lparr>getImageList := [sample_item 7 ''Im0'', sample_item 7 ''Im2'']\<rparr>"
  have h: "\<forall>item \<in> set (getImageList ?pg). \<forall>bbox pix.
             getImageBbox ?pg (item\<lparr>referencer := 0\<rparr>) = Some bbox \<longrightarrow>
             intersects bbox (rect ?pg) \<longrightarrow>
             recover_pixmap sample_fitz (parent ?pg) (item\<lparr>referencer := 0\<rparr>) = Inr pix \<longrightarrow>
             colorspace pix \<noteq> None"
    by (auto simp: sample_page_def sample_item_def recover_pixmap_def Pixmap_doc_def
          sample_document_def Pixmap_cs_def csCMYK_def csGRAY_def csRGB_def
          intersects_def isEmpty_def rect_and_def)
  show ?thesis using extract_images_page_unchanged [OF h] by simp
qed

section \<open>Properties of region grouping\<close>

text \<open>
  Growing a cluster for as many rounds as there are regions reaches a set that one more
  round does not change: each round that adds nothing ends the growth, and each other round
  adds a region.
\<close>

lemma expand_increasing: "S \<subseteq> expand f xs S"
  by (auto simp: expand_def)

lemma expand_within: "S \<subseteq> set xs \<Longrightarrow> expand f xs S \<subseteq> set xs"
  by (auto simp: expand_def)

lemma expand_links: "expand f xs S = S \<union> links f xs `` S"
  by (auto simp: expand_def links_def)

lemma grow_increasing: "S \<subseteq> grow f xs k S"
proof (induction k arbitrary: S)
  case 0
  show ?case by simp
next
  case (Suc k)
  have "S \<subseteq> expand f xs S" by (rule expand_increasing)
  also have "\<dots> \<subseteq> grow f xs k (expand f xs S)" by (rule Suc.IH)
  finally show ?case by simp
qed

lemma grow_within: "S \<subseteq> set xs \<Longrightarrow> grow f xs k S \<subseteq> set xs"
  by (induction k arbitrary: S) (auto dest: expand_within)

lemma grow_fixed: "expand f xs S = S \<Longrightarrow> grow f xs k S = S"
  by (induction k) auto

lemma grow_reaches: "grow f xs k S \<subseteq> (links f xs)\<^sup>* `` S"
proof (induction k arbitrary: S)
  case 0
  show ?case by auto
next
  case (Suc k)
  have "grow f xs (Suc k) S \<subseteq> (links f xs)\<^sup>* `` (expand f xs S)"
    using Suc.IH by simp
  also have "\<dots> \<subseteq> (links f xs)\<^sup>* `` S"
    unfolding expand_links by (auto intro: converse_rtrancl_into_rtrancl)
  finally show ?case .
qed

lemma grow_saturates:
  assumes "finite S"
  shows "expand f xs (grow f xs k S) = grow f xs k S \<or> card S + k \<le> card (grow f xs k S)"
  using assms
proof (induction k arbitrary: S)
  case 0
  show ?case by simp
next
  case (Suc k)
  show ?case
  proof (cases "expand f xs S = S")
    case True
    then show ?thesis by (simp add: grow_fixed)
  next
    case False
    have fin: "finite (expand f xs S)" using Suc.prems by (simp add: expand_def)
    have "S \<subset> expand f xs S" using False expand_increasing[of S f xs] by blast
    then have c: "card S < card (expand f xs S)" using fin by (rule psubset_card_mono[rotated])
    from Suc.IH[OF fin] show ?thesis using c by auto
  qed
qed

lemma connected_closed:
  assumes "x \<in> set xs"
  shows "expand f xs (connected_to f xs x) = connected_to f xs x"
proof -
  have sub: "connected_to f xs x \<subseteq> set xs"
    unfolding connected_to_def using assms by (intro grow_within) simp
  have "card (connected_to f xs x) \<le> card (set xs)"
    using sub by (intro card_mono) auto
  also have "\<dots> \<le> length xs" by (rule card_length)
  finally have "\<not> card {x} + length xs \<le> card (connected_to f xs x)" by simp
  then show ?thesis
    using grow_saturates[of "{x}" f xs "length xs"] by (simp add: connected_to_def)
qed

lemma connected_rtrancl:
  assumes "x \<in> set xs"
  shows "connected_to f xs x = (links f xs)\<^sup>* `` {x}"
proof
  show "connected_to f xs x \<subseteq> (links f xs)\<^sup>* `` {x}"
    unfolding connected_to_def by (rule grow_reaches)
next
  have base: "x \<in> connected_to f xs x"
    unfolding connected_to_def using grow_increasing[of "{x}"] by blast
  have "y \<in> connected_to f xs x" if "(x, y) \<in> (links f xs)\<^sup>*" for y
    using that
  proof (induction rule: rtrancl_induct)
    case base
    show ?case by (rule \<open>x \<in> connected_to f xs x\<close>)
  next
    case (step y z)
    then have "z \<in> expand f xs (connected_to f xs x)"
      unfolding expand_links by blast
    then show ?case using connected_closed[OF assms] by simp
  qed
  then show "(links f xs)\<^sup>* `` {x} \<subseteq> connected_to f xs x" by blast
qed

lemma links_back:
  assumes sym: "\<And>a b. adjacent f a b \<Longrightarrow> adjacent f b a"
      and "x \<in> set xs" and "(x, y) \<in> (links f xs)\<^sup>*"
  shows "(y, x) \<in> (links f xs)\<^sup>* \<and> y \<in> set xs"
  using assms(3)
proof (induction rule: rtrancl_induct)
  case base
  show ?case using assms(2) by simp
next
  case (step y z)
  then have "(z, y) \<in> links f xs" using sym by (auto simp: links_def)
  moreover have "z \<in> set xs" using step.hyps(2) by (simp add: links_def)
  ultimately show ?case using step.IH by (auto intro: converse_rtrancl_into_rtrancl)
qed

lemma connected_same:
  assumes sym: "\<And>a b. adjacent f a b \<Longrightarrow> adjacent f b a"
      and "x \<in> set xs" and "y \<in> connected_to f xs x"
  shows "y \<in> set xs \<and> connected_to f xs y = connected_to f xs x"
proof -
  have xy: "(x, y) \<in> (links f xs)\<^sup>*" using assms by (simp add: connected_rtrancl)
  from links_back[OF sym assms(2) xy] have yx: "(y, x) \<in> (links f xs)\<^sup>*" and y: "y \<in> set xs"
    by auto
  have "(links f xs)\<^sup>* `` {y} = (links f xs)\<^sup>* `` {x}"
    using xy yx by (auto intro: rtrancl_trans)
  then show ?thesis using y assms(2) by (simp add: connected_rtrancl)
qed

lemma in_own_cluster: "x \<in> set xs \<Longrightarrow> x \<in> set (cluster f xs x)"
  unfolding cluster_def connected_to_def using grow_increasing[of "{x}" f xs "length xs"] by auto

lemma set_cluster: "set (cluster f xs x) = set xs \<inter> connected_to f xs x"
  by (auto simp: cluster_def)

lemma set_group: "set (Collection_group f xs) = cluster f xs ` set xs"
  by (simp add: Collection_group_def)

lemma group_member:
  assumes "g \<in> set (Collection_group f xs)"
  shows "g \<noteq> [] \<and> set g \<subseteq> set xs"
proof -
  from assms obtain x where x: "x \<in> set xs" and g: "g = cluster f xs x"
    by (auto simp: set_group)
  have "x \<in> set g" using in_own_cluster[OF x] g by simp
  moreover have "set g \<subseteq> set xs" using g by (simp add: set_cluster)
  ultimately show ?thesis by auto
qed

lemma cluster_same:
  assumes sym: "\<And>a b. adjacent f a b \<Longrightarrow> adjacent f b a"
      and "x \<in> set xs" and "y \<in> set (cluster f xs x)"
  shows "cluster f xs y = cluster f xs x"
  using connected_same[OF sym assms(2)] assms(3) by (simp add: cluster_def)

lemma expand_perm: "set xs = set ys \<Longrightarrow> expand f xs = expand f ys"
  by (auto simp: expand_def fun_eq_iff)

lemma grow_perm: "set xs = set ys \<Longrightarrow> grow f xs k S = grow f ys k S"
  by (induction k arbitrary: S) (auto simp: expand_perm[of xs ys])

lemma connected_perm: "mset xs = mset ys \<Longrightarrow> connected_to f xs = connected_to f ys"
  using grow_perm[of xs ys] mset_eq_setD[of xs ys] mset_eq_length[of xs ys]
  by (auto simp: connected_to_def fun_eq_iff)

lemma cluster_perm: "mset xs = mset ys \<Longrightarrow> set (cluster f xs x) = set (cluster f ys x)"
  using connected_perm[of xs ys f] mset_eq_setD[of xs ys] by (simp add: set_cluster)

lemma fold_rect_or:
  "fold (\<lambda>e r. rect_or r (element_bbox e)) es r0 =
     \<lparr>x0 = fold min (map (x0 \<circ> element_bbox) es) (x0 r0),
      y0 = fold min (map (y0 \<circ> element_bbox) es) (y0 r0),
      x1 = fold max (map (x1 \<circ> element_bbox) es) (x1 r0),
      y1 = fold max (map (y1 \<circ> element_bbox) es) (y1 r0)\<rparr>"
  by (induction es arbitrary: r0) (simp_all add: rect_or_def min.commute max.commute)

lemma Collection_bbox_set:
  assumes "g \<noteq> []"
  shows "Collection_bbox g =
     \<lparr>x0 = Min ((x0 \<circ> element_bbox) ` set g), y0 = Min ((y0 \<circ> element_bbox) ` set g),
      x1 = Max ((x1 \<circ> element_bbox) ` set g), y1 = Max ((y1 \<circ> element_bbox) ` set g)\<rparr>"
proof -
  from assms obtain e es where g: "g = e # es" by (cases g) auto
  have mn: "fold min (map h es) (h e) = Min (h ` set (e # es))" for h :: "Element \<Rightarrow> real"
    using Min.set_eq_fold[of "h e" "map h es"] by simp
  have mx: "fold max (map h es) (h e) = Max (h ` set (e # es))" for h :: "Element \<Rightarrow> real"
    using Max.set_eq_fold[of "h e" "map h es"] by simp
  show ?thesis
    unfolding g Collection_bbox.simps fold_rect_or
    using mn[of "x0 \<circ> element_bbox"] mn[of "y0 \<circ> element_bbox"]
          mx[of "x1 \<circ> element_bbox"] mx[of "y1 \<circ> element_bbox"]
    by simp
qed

lemma Collection_bbox_cong:
  "set g = set g' \<Longrightarrow> g \<noteq> [] \<Longrightarrow> Collection_bbox g = Collection_bbox g'"
proof -
  assume s: "set g = set g'" and n: "g \<noteq> []"
  then have n': "g' \<noteq> []" by auto
  show ?thesis by (simp add: Collection_bbox_set[OF n] Collection_bbox_set[OF n'] s)
qed

lemma Collection_bbox_covers:
  assumes "e \<in> set g"
  shows "x0 (Collection_bbox g) \<le> x0 (element_bbox e) \<and> y0 (Collection_bbox g) \<le> y0 (element_bbox e)
       \<and> x1 (element_bbox e) \<le> x1 (Collection_bbox g) \<and> y1 (element_bbox e) \<le> y1 (Collection_bbox g)"
proof -
  have "g \<noteq> []" using assms by auto
  then show ?thesis using assms by (simp add: Collection_bbox_set)
qed


lemma adjacent_bbox_and_sym: "adjacent bbox_and a b \<Longrightarrow> adjacent bbox_and b a"
  by (simp add: adjacent_def bbox_and_def rect_and_def isEmpty_def min.commute max.commute)

text \<open>
  Claim C8. Grouping does not depend on the order of the regions: two lists with the same
  regions, in any order, give the same clusters as sets of regions, and the same set of
  cluster boxes.
\<close>

theorem group_order_independent:
  assumes "mset xs = mset ys"
  shows "set ` set (Collection_group f xs) = set ` set (Collection_group f ys)
       \<and> Collection_bbox ` set (Collection_group f xs) = Collection_bbox ` set (Collection_group f ys)"
proof -
  have s: "set xs = set ys" using assms by (rule mset_eq_setD)
  have c: "set (cluster f xs x) = set (cluster f ys x)" for x
    using assms by (rule cluster_perm)
  have b: "Collection_bbox (cluster f xs x) = Collection_bbox (cluster f ys x)" if "x \<in> set xs" for x
  proof -
    have "cluster f xs x \<noteq> []" using in_own_cluster[OF that, of f] by auto
    with c show ?thesis by (intro Collection_bbox_cong) auto
  qed
  have "set ` set (Collection_group f xs) = (\<lambda>x. set (cluster f xs x)) ` set xs"
    by (simp add: set_group image_image)
  also have "\<dots> = (\<lambda>x. set (cluster f ys x)) ` set ys" using c s by simp
  also have "\<dots> = set ` set (Collection_group f ys)" by (simp add: set_group image_image)
  finally have 1: "set ` set (Collection_group f xs) = set ` set (Collection_group f ys)" .
  have "Collection_bbox ` set (Collection_group f xs) = (\<lambda>x. Collection_bbox (cluster f xs x)) ` set xs"
    by (simp add: set_group image_image)
  also have "\<dots> = (\<lambda>x. Collection_bbox (cluster f ys x)) ` set ys" using b s by (auto simp: image_iff)
  also have "\<dots> = Collection_bbox ` set (Collection_group f ys)" by (simp add: set_group image_image)
  finally show ?thesis using 1 by simp
qed

theorem group_order_independent_witness:
  "mset [region_A, region_D, region_B] = mset [region_B, region_A, region_D]
   \<and> set ` set (Collection_group bbox_and [region_A, region_D, region_B])
       = set ` set (Collection_group bbox_and [region_B, region_A, region_D])
   \<and> Collection_bbox ` set (Collection_group bbox_and [region_A, region_D, region_B])
       = Collection_bbox ` set (Collection_group bbox_and [region_B, region_A, region_D])"
proof -
  have h: "mset [region_A, region_D, region_B] = mset [region_B, region_A, region_D]"
    by (simp add: ac_simps)
  show ?thesis using h group_order_independent [OF h, of bbox_and] by simp
qed

text \<open>
  Claim C4, amended. Grouping is the transitive closure of adjacency: when \<open>A\<close> meets \<open>B\<close>
  and \<open>B\<close> meets \<open>C\<close>, then (whether or not \<open>A\<close> meets \<open>C\<close>) one cluster holds all three, no
  other cluster holds any of them, and its members are the regions that a chain of adjacent
  regions connects with \<open>A\<close>. Its box covers the union of the three boxes, and is that union
  when the cluster has no further member.
\<close>

theorem group_chain:
  assumes "A \<in> set xs" and "B \<in> set xs" and "C \<in> set xs"
      and "adjacent bbox_and A B" and "adjacent bbox_and B C"
  shows "\<exists>g \<in> set (Collection_group bbox_and xs).
           A \<in> set g \<and> B \<in> set g \<and> C \<in> set g
         \<and> (\<forall>g' \<in> set (Collection_group bbox_and xs).
               A \<in> set g' \<or> B \<in> set g' \<or> C \<in> set g' \<longrightarrow> g' = g)
         \<and> set g = {y \<in> set xs. (A, y) \<in> (links bbox_and xs)\<^sup>*}
         \<and> rect_or (Collection_bbox g)
              (rect_or (rect_or (element_bbox A) (element_bbox B)) (element_bbox C))
             = Collection_bbox g
         \<and> (set g = {A, B, C} \<longrightarrow>
              Collection_bbox g = rect_or (rect_or (element_bbox A) (element_bbox B)) (element_bbox C))"
proof -
  let ?g = "cluster bbox_and xs A"
  note sym = adjacent_bbox_and_sym
  have g: "?g \<in> set (Collection_group bbox_and xs)" using assms(1) by (simp add: set_group)
  have a: "A \<in> set ?g" using assms(1) by (rule in_own_cluster)
  have ab: "(A, B) \<in> links bbox_and xs" and bc: "(B, C) \<in> links bbox_and xs"
    using assms by (auto simp: links_def)
  have b: "B \<in> set ?g" using ab assms(1,2) by (auto simp: set_cluster connected_rtrancl)
  have c: "C \<in> set ?g" using ab bc assms(1,3) by (auto simp: set_cluster connected_rtrancl)
  have u: "g' = ?g" if g': "g' \<in> set (Collection_group bbox_and xs)"
      and m: "A \<in> set g' \<or> B \<in> set g' \<or> C \<in> set g'" for g'
  proof -
    from g' obtain z where z: "z \<in> set xs" and gz: "g' = cluster bbox_and xs z"
      by (auto simp: set_group)
    from m obtain e where e: "e \<in> set g'" "e \<in> set ?g" using a b c by blast
    have "cluster bbox_and xs e = g'" using cluster_same[OF sym z] e(1) gz by simp
    moreover have "cluster bbox_and xs e = ?g" using cluster_same[OF sym assms(1)] e(2) by simp
    ultimately show ?thesis by simp
  qed
  have r: "set ?g = {y \<in> set xs. (A, y) \<in> (links bbox_and xs)\<^sup>*}"
    using assms(1) by (auto simp: set_cluster connected_rtrancl)
  have cov: "rect_or (Collection_bbox ?g)
              (rect_or (rect_or (element_bbox A) (element_bbox B)) (element_bbox C))
             = Collection_bbox ?g"
    using Collection_bbox_covers[OF a] Collection_bbox_covers[OF b] Collection_bbox_covers[OF c]
    by (simp add: rect_or_def)
  have eq: "Collection_bbox ?g = rect_or (rect_or (element_bbox A) (element_bbox B)) (element_bbox C)"
    if "set ?g = {A, B, C}"
  proof -
    have "?g \<noteq> []" using a by auto
    then have "Collection_bbox ?g = Collection_bbox [A, B, C]"
      using that by (intro Collection_bbox_cong) auto
    then show ?thesis by simp
  qed
  show ?thesis using g a b c u r cov eq by blast
qed


lemma adjacent_bbox_and_Element:
  "adjacent bbox_and (Element a) (Element b) =
     (max (x0 a) (x0 b) < min (x1 a) (x1 b) \<and> max (y0 a) (y0 b) < min (y1 a) (y1 b))"
  by (auto simp: adjacent_def bbox_and_def rect_and_def isEmpty_def)

theorem group_chain_witness:
  "region_A \<in> set [region_A, region_B, region_C]
   \<and> adjacent bbox_and region_A region_B \<and> adjacent bbox_and region_B region_C
   \<and> \<not> adjacent bbox_and region_A region_C
   \<and> (\<exists>g \<in> set (Collection_group bbox_and [region_A, region_B, region_C]).
         region_A \<in> set g \<and> region_B \<in> set g \<and> region_C \<in> set g
       \<and> (set g = {region_A, region_B, region_C} \<longrightarrow>
            Collection_bbox g = \<lparr>x0 = 0, y0 = 0, x1 = 20, y1 = 20\<rparr>))"
proof -
  have a: "region_A \<in> set [region_A, region_B, region_C]"
   and b: "region_B \<in> set [region_A, region_B, region_C]"
   and c: "region_C \<in> set [region_A, region_B, region_C]" by simp_all
  have ab: "adjacent bbox_and region_A region_B" and bc: "adjacent bbox_and region_B region_C"
   and ac: "\<not> adjacent bbox_and region_A region_C"
    by (simp_all add: region_A_def region_B_def region_C_def adjacent_bbox_and_Element)
  have u: "rect_or (rect_or (element_bbox region_A) (element_bbox region_B)) (element_bbox region_C)
             = \<lparr>x0 = 0, y0 = 0, x1 = 20, y1 = 20\<rparr>"
    by (simp add: region_A_def region_B_def region_C_def rect_or_def)
  from group_chain [OF a b c ab bc] obtain g where
    "g \<in> set (Collection_group bbox_and [region_A, region_B, region_C])"
    "region_A \<in> set g" "region_B \<in> set g" "region_C \<in> set g"
    "set g = {region_A, region_B, region_C} \<longrightarrow>
       Collection_bbox g = rect_or (rect_or (element_bbox region_A) (element_bbox region_B)) (element_bbox region_C)"
    by blast
  then show ?thesis using a ab bc ac unfolding u by blast
qed

text \<open>
  Claim C4 says that the box of the cluster is the union of the boxes of \<open>A\<close>, \<open>B\<close> and
  \<open>C\<close> in every contour set that contains them. In the set that also has \<open>D\<close>, which meets
  \<open>A\<close>, the one cluster holds all four regions and its box is larger than that union.
\<close>

theorem group_chain_larger_cluster:
  "adjacent bbox_and region_A region_B \<and> adjacent bbox_and region_B region_C
   \<and> \<not> adjacent bbox_and region_A region_C
   \<and> Collection_group bbox_and [region_A, region_B, region_C, region_D]
       = [[region_A, region_B, region_C, region_D]]
   \<and> Collection_bbox [region_A, region_B, region_C, region_D] = \<lparr>x0 = - 5, y0 = - 5, x1 = 20, y1 = 20\<rparr>
   \<and> rect_or (rect_or (element_bbox region_A) (element_bbox region_B)) (element_bbox region_C)
       = \<lparr>x0 = 0, y0 = 0, x1 = 20, y1 = 20\<rparr>"
  by (simp add: Collection_group_def cluster_def connected_to_def expand_def rect_or_def
        adjacent_bbox_and_Element region_A_def region_B_def region_C_def region_D_def)

section \<open>Properties of the records\<close>

lemma fold_min_max_le: "fold min xs (a::int) \<le> fold max xs a"
proof -
  have "fold min xs a = Min (set (a # xs))" by (rule Min.set_eq_fold[symmetric])
  moreover have "fold max xs a = Max (set (a # xs))" by (rule Max.set_eq_fold[symmetric])
  moreover have "Min (set (a # xs)) \<le> a" "a \<le> Max (set (a # xs))" by simp_all
  ultimately show ?thesis by linarith
qed

lemma boundingRect_pos: "boundingRect ct = (x, y, w, h) \<Longrightarrow> 1 \<le> w \<and> 1 \<le> h"
  using fold_min_max_le[of "map fst (snd ct)" "fst (fst ct)"]
        fold_min_max_le[of "map snd (snd ct)" "snd (fst ct)"]
  by (auto simp: boundingRect_def Let_def split: prod.splits)

lemma to_raw_dict_ok: "x0 bbox < x1 bbox \<Longrightarrow> y0 bbox < y1 bbox \<Longrightarrow> record_ok (to_raw_dict pix bbox)"
  by (simp add: record_ok_def to_raw_dict_def non_degenerate_def tuple_def getPNGData_def
        png_width_def png_height_def)

lemma extract_item_ok:
  assumes "extract_item fz ratio pg item = (Inr (Some rd), pg')"
  shows "record_ok rd"
  using assms
  by (auto simp: extract_item_def Let_def intersects_def isEmpty_def intro!: to_raw_dict_ok
      split: option.splits if_splits sum.splits prod.splits)

lemma extract_images_loop_ok:
  assumes "fst (extract_images_loop fz ratio items pg acc) = Inr rs"
      and "\<forall>r \<in> set acc. record_ok r"
  shows "\<forall>r \<in> set rs. record_ok r"
  using assms
proof (induction items arbitrary: pg acc)
  case Nil
  then show ?case by simp
next
  case (Cons item items)
  show ?case
  proof (cases "extract_item fz ratio pg item")
    case (Pair res pg')
    show ?thesis
    proof (cases res)
      case (Inl e)
      then show ?thesis using Cons.prems Pair by simp
    next
      case (Inr opt)
      show ?thesis
      proof (cases opt)
        case None
        then show ?thesis using Cons.prems Pair Inr Cons.IH[of pg' acc] by simp
      next
        case (Some rd)
        have "record_ok rd" using Pair Inr Some by (auto intro: extract_item_ok)
        then show ?thesis using Cons.prems Pair Inr Some Cons.IH[of pg' "acc @ [rd]"] by simp
      qed
    qed
  qed
qed

lemma detect_svg_contours_boxes:
  assumes "detect_svg_contours cvl fz pg exclude_areas = (Inr contours, pg')"
      and "e \<in> set contours"
  shows "x0 (element_bbox e) < x1 (element_bbox e) \<and> y0 (element_bbox e) < y1 (element_bbox e)"
proof -
  from assms obtain ct where "e = (case boundingRect ct of (x, y, w, h) \<Rightarrow>
        update_bbox (real_of_int x, real_of_int y, real_of_int (x + w), real_of_int (y + h)))"
    by (auto simp: detect_svg_contours_def Let_def split: prod.splits sum.splits)
  then show ?thesis
    using boundingRect_pos[of ct] by (auto simp: update_bbox_def split: prod.splits)
qed

lemma Collection_bbox_area:
  assumes "g \<noteq> []"
      and "\<forall>e \<in> set g. x0 (element_bbox e) < x1 (element_bbox e) \<and> y0 (element_bbox e) < y1 (element_bbox e)"
  shows "x0 (Collection_bbox g) < x1 (Collection_bbox g) \<and> y0 (Collection_bbox g) < y1 (Collection_bbox g)"
proof -
  from assms(1) obtain e where e: "e \<in> set g" by (cases g) auto
  from Collection_bbox_covers[OF e] assms(2) e show ?thesis by fastforce
qed

text \<open>
  Claim C9. Every record that \<open>extract_images\<close> or \<open>extract_vector_graphics\<close> returns has a
  box with \<open>x1 > x0\<close> and \<open>y1 > y0\<close>, and its width and height are those of the pixel map
  encoded in its PNG data.
\<close>

theorem image_records_ok:
  "(fst (extract_images fz pg ratio) = Inr records \<longrightarrow> (\<forall>r \<in> set records. record_ok r))
   \<and> (fst (extract_vector_graphics cvl fz pg exclude_areas ratio) = Inr records' \<longrightarrow>
        (\<forall>r \<in> set records'. record_ok r))"
proof (intro conjI impI)
  assume "fst (extract_images fz pg ratio) = Inr records"
  then show "\<forall>r \<in> set records. record_ok r"
    unfolding extract_images_def by (rule extract_images_loop_ok) simp
next
  assume v: "fst (extract_vector_graphics cvl fz pg exclude_areas ratio) = Inr records'"
  then obtain contours pg' where d: "detect_svg_contours cvl fz pg exclude_areas = (Inr contours, pg')"
    and r: "records' = map (\<lambda>g. to_raw_dict (getPixmap fz pg' (Collection_bbox g) (Matrix ratio ratio))
                                  (Collection_bbox g))
                           (Collection_group bbox_and contours)"
    by (auto simp: extract_vector_graphics_def Let_def split: prod.splits sum.splits)
  show "\<forall>r \<in> set records'. record_ok r"
  proof
    fix rd assume "rd \<in> set records'"
    then obtain g where g: "g \<in> set (Collection_group bbox_and contours)"
      and rd: "rd = to_raw_dict (getPixmap fz pg' (Collection_bbox g) (Matrix ratio ratio)) (Collection_bbox g)"
      using r by auto
    from group_member[OF g] have ne: "g \<noteq> []" and sub: "set g \<subseteq> set contours" by auto
    have "\<forall>e \<in> set g. x0 (element_bbox e) < x1 (element_bbox e) \<and> y0 (element_bbox e) < y1 (element_bbox e)"
      using sub detect_svg_contours_boxes[OF d] by blast
    from Collection_bbox_area[OF ne this] show "record_ok rd"
      unfolding rd by (intro to_raw_dict_ok) auto
  qed
qed

theorem image_records_ok_witness:
  "record_ok \<lparr>rd_type = IMAGE, rd_bbox = (100, 100, 200, 200), rd_ext = ''png'',
              rd_width = 3, rd_height = 3,
              rd_image = PNGData \<lparr>width = 3, height = 3, colorspace = Some csRGB,
                                   colour = replicate 27 255, alpha = None\<rparr>\<rparr>
   \<and> record_ok \<lparr>rd_type = IMAGE, rd_bbox = (0, 0, 15, 15), rd_ext = ''png'',
              rd_width = 3, rd_height = 3,
              rd_image = PNGData \<lparr>width = 3, height = 3, colorspace = Some csRGB,
                                   colour = replicate 27 255, alpha = None\<rparr>\<rparr>"
proof -
  let ?pix = "\<lparr>width = 3, height = 3, colorspace = Some csRGB,
               colour = replicate 27 255, alpha = None\<rparr>"
  let ?r1 = "\<lparr>rd_type = IMAGE, rd_bbox = (100, 100, 200, 200), rd_ext = ''png'',
              rd_width = 3, rd_height = 3, rd_image = PNGData ?pix\<rparr>"
  let ?r2 = "\<lparr>rd_type = IMAGE, rd_bbox = (0, 0, 15, 15), rd_ext = ''png'',
              rd_width = 3, rd_height = 3, rd_image = PNGData ?pix\<rparr>"
  have h1: "fst (extract_images sample_fitz sample_page 3) = Inr [?r1]"
    by (simp add: extract_images_def extract_item_def sample_page_def sample_item_def
        intersects_def isEmpty_def rect_and_def recover_pixmap_def Pixmap_doc_def
        sample_document_def clip_page_def hide_page_text_def xrefStream_def updateStream_def
        to_raw_dict_def tuple_def getPNGData_def sample_fitz_def Matrix_def)
  have g: "Collection_group bbox_and [region_A, region_B] = [[region_A, region_B]]"
    by (simp add: Collection_group_def cluster_def connected_to_def expand_def
          adjacent_bbox_and_Element region_A_def region_B_def)
  have d: "detect_svg_contours sample_cv sample_fitz sample_page [(100, 100, 200, 200)]
             = (Inr [region_A, region_B],
                sample_page\<lparr>parent := sample_document\<lparr>streams := [5 \<mapsto> ''BT 3 Tr 72 720 Td 3 Tr (Hi) Tj ET'']\<rparr>\<rparr>)"
    unfolding detect_svg_contours_def clip_page_def hide_page_text_sample
    by (simp add: sample_cv_def Let_def boundingRect_def update_bbox_def region_A_def region_B_def)
  have h2: "fst (extract_vector_graphics sample_cv sample_fitz sample_page [(100, 100, 200, 200)] 3)
              = Inr [?r2]"
    unfolding extract_vector_graphics_def d
    by (simp add: g [unfolded region_A_def region_B_def] Let_def rect_or_def region_A_def
          region_B_def to_raw_dict_def tuple_def getPNGData_def sample_fitz_def)
  show ?thesis
    using image_records_ok [of sample_fitz sample_page 3 "[?r1]" sample_cv
                               "[(100, 100, 200, 200)]" "[?r2]"] h1 h2
    by simp
qed

section \<open>Properties of exclusion-area blanking\<close>




end
